theory Spec2Isabelle
  imports Main "HOL-Library.Word"
begin

unbundle bit_operations_syntax

section \<open>JavaScript values that cross the database boundary\<close>

text \<open>
  The client is TypeScript on Node: object identifiers, descriptors, positions and sizes
  are JavaScript values.  \<open>JNum i\<close> is a number whose value is the integer \<open>i\<close>,
  \<open>JDecStr i\<close> is the string of decimal digits of \<open>i\<close> (the form in which the
  \<open>postgres\<close> driver hands over a 64-bit integer column), \<open>JNaN\<close> is the number NaN.
\<close>

type_synonym buffer = "8 word list"

datatype jsval = JUndefined | JNull | JNaN | JNum int | JDecStr int

text \<open>The test \<open>!x\<close> of the source is \<open>\<not> truthy x\<close>.  A string of digits is never empty.\<close>

fun truthy :: "jsval \<Rightarrow> bool" where
  "truthy JUndefined = False"
| "truthy JNull = False"
| "truthy JNaN = False"
| "truthy (JNum n) = (n \<noteq> 0)"
| "truthy (JDecStr i) = True"

text \<open>
  A JavaScript number is an IEEE-754 double: 53 significant bits.  \<open>nearest_double x\<close> is
  the integer that the double nearest to the integer \<open>x\<close> holds (ties to even); the
  range of 64-bit integers is far from overflow.
\<close>

fun bitlen :: "nat \<Rightarrow> nat" where
  "bitlen n = (if n = 0 then 0 else Suc (bitlen (n div 2)))"

declare bitlen.simps [simp del]

definition nearest_double :: "int \<Rightarrow> int" where
  "nearest_double x =
     (let a = nat \<bar>x\<bar>; e = bitlen a in
      if e \<le> 53 then x
      else
        let sh = e - 53; q = a div 2 ^ sh; r = a mod 2 ^ sh; half = 2 ^ (sh - 1);
            q' = (if half < r \<or> (r = half \<and> odd q) then q + 1 else q)
        in sgn x * int (q' * 2 ^ sh))"

text \<open>The unary \<open>+\<close> of the source (\<open>+location\<close>, \<open>+size\<close>): conversion to number.\<close>

fun unary_plus :: "jsval \<Rightarrow> jsval" where
  "unary_plus JUndefined = JNaN"
| "unary_plus JNull = JNum 0"
| "unary_plus JNaN = JNaN"
| "unary_plus (JNum n) = JNum n"
| "unary_plus (JDecStr i) = JNum (nearest_double i)"

section \<open>The remote engine: PostgreSQL's server-side large-object functions\<close>

text \<open>
  The repository sends SQL statements that call \<open>lo_open\<close>, \<open>lo_creat\<close>, \<open>lo_unlink\<close>,
  \<open>loread\<close>, \<open>lowrite\<close>, \<open>lo_lseek64\<close>, \<open>lo_tell64\<close> and \<open>lo_close\<close>.  These
  functions are not part of the repository; they are the environment the client runs
  against, described here after the PostgreSQL documentation of the large-object
  interface: a descriptor table indexed by small integers, each descriptor holding the
  object's identifier, a position, and, for a descriptor opened read-only, the snapshot
  of the contents taken when it was opened (a descriptor opened with the write flag
  reads and writes the live contents).

  The limits of the engine that the client can meet are part of the description: an
  object holds at most \<open>MAX_LARGE_OBJECT_SIZE\<close> bytes (\<open>INT_MAX\<close> pages of 2048 bytes)
  and no position lies beyond that; the length of a read is a 32-bit integer, and the
  engine allocates the result before it reads, which fails from 1073741820 bytes on.

  What the description leaves out: identifiers and descriptors have no upper limit of
  32 bits, offsets none of 64 bits (an offset out of range misses the allowed positions
  anyway), and the size of a \<open>bytea\<close> argument has none; \<open>lo_creat\<close> takes the
  successor of the largest identifier in use, where the engine takes any unused one; a
  statement that fails leaves the engine as it was, and that the engine then aborts the
  transaction is not described; a descriptor or identifier argument that is not an
  integer makes the statement fail.
\<close>

datatype pgerror =
    InvalidFlags | UndefinedObject | InvalidDescriptor | NotOpenForWriting
  | InvalidWhence | InvalidSeekTarget | InvalidText
  | NumericValueOutOfRange | InvalidAllocSize | InvalidWriteSize

record LargeObjectDesc =
  lobj_id :: nat
  lobj_offset :: int
  lobj_snapshot :: "buffer option"

record server =
  largeobjects :: "(nat \<times> buffer) list"
  cookies :: "LargeObjectDesc option list"

definition INV_WRITE :: "32 word" where "INV_WRITE = 0x00020000"
definition INV_READ :: "32 word" where "INV_READ = 0x00040000"

definition desc_of :: "server \<Rightarrow> int \<Rightarrow> LargeObjectDesc option" where
  "desc_of sv i = (if 0 \<le> i \<and> nat i < length (cookies sv) then cookies sv ! nat i else None)"

text \<open>
  No object is longer than \<open>MAX_LARGE_OBJECT_SIZE\<close>: of a longer list in a state of the
  model, the engine holds the first \<open>MAX_LARGE_OBJECT_SIZE\<close> bytes.
\<close>

definition MAX_LARGE_OBJECT_SIZE :: int where
  "MAX_LARGE_OBJECT_SIZE = 2147483647 * 2048"

definition clip :: "buffer \<Rightarrow> buffer" where
  "clip b = take (nat MAX_LARGE_OBJECT_SIZE) b"

definition stored :: "server \<Rightarrow> nat \<Rightarrow> buffer option" where
  "stored sv ident = map_option clip (map_of (largeobjects sv) ident)"

definition contents :: "server \<Rightarrow> LargeObjectDesc \<Rightarrow> buffer" where
  "contents sv d =
     (case lobj_snapshot d of
        Some b \<Rightarrow> clip b
      | None \<Rightarrow> (case stored sv (lobj_id d) of Some b \<Rightarrow> b | None \<Rightarrow> []))"

fun first_free :: "'a option list \<Rightarrow> nat" where
  "first_free [] = 0"
| "first_free (None # cs) = 0"
| "first_free (Some d # cs) = Suc (first_free cs)"

definition put_desc :: "'a option list \<Rightarrow> 'a \<Rightarrow> 'a option list" where
  "put_desc cs d =
     (let i = first_free cs in if i < length cs then cs[i := Some d] else cs @ [Some d])"

definition lo_open :: "nat \<Rightarrow> 32 word \<Rightarrow> server \<Rightarrow> (pgerror + int) \<times> server" where
  "lo_open ident mode sv =
     (if mode AND INV_WRITE = 0 \<and> mode AND INV_READ = 0 then (Inl InvalidFlags, sv)
      else case stored sv ident of
        None \<Rightarrow> (Inl UndefinedObject, sv)
      | Some b \<Rightarrow>
          (let d = \<lparr>lobj_id = ident, lobj_offset = 0,
                    lobj_snapshot = (if mode AND INV_WRITE \<noteq> 0 then None else Some b)\<rparr>
           in (Inr (int (first_free (cookies sv))), sv\<lparr>cookies := put_desc (cookies sv) d\<rparr>)))"

definition fresh_oid :: "(nat \<times> buffer) list \<Rightarrow> nat" where
  "fresh_oid objs = Suc (fold max (map fst objs) 0)"

definition lo_creat :: "32 word \<Rightarrow> server \<Rightarrow> (pgerror + nat) \<times> server" where
  "lo_creat mode sv =
     (let ident = fresh_oid (largeobjects sv)
      in (Inr ident, sv\<lparr>largeobjects := largeobjects sv @ [(ident, [])]\<rparr>))"

definition lo_unlink :: "nat \<Rightarrow> server \<Rightarrow> (pgerror + int) \<times> server" where
  "lo_unlink ident sv =
     (case stored sv ident of
        None \<Rightarrow> (Inl UndefinedObject, sv)
      | Some b \<Rightarrow>
          (Inr 1,
           sv\<lparr>largeobjects := filter (\<lambda>p. fst p \<noteq> ident) (largeobjects sv),
              cookies := map (\<lambda>c. case c of
                                     None \<Rightarrow> None
                                   | Some d \<Rightarrow> if lobj_id d = ident then None else Some d)
                           (cookies sv)\<rparr>))"

definition lo_close :: "int \<Rightarrow> server \<Rightarrow> (pgerror + int) \<times> server" where
  "lo_close i sv =
     (case desc_of sv i of
        None \<Rightarrow> (Inl InvalidDescriptor, sv)
      | Some d \<Rightarrow> (Inr 0, sv\<lparr>cookies := (cookies sv)[nat i := None]\<rparr>))"

definition loread :: "int \<Rightarrow> int \<Rightarrow> server \<Rightarrow> (pgerror + buffer) \<times> server" where
  "loread i len sv =
     (if len < - 2147483648 \<or> 2147483647 < len then (Inl NumericValueOutOfRange, sv)
      else if 1073741820 \<le> len then (Inl InvalidAllocSize, sv)
      else case desc_of sv i of
        None \<Rightarrow> (Inl InvalidDescriptor, sv)
      | Some d \<Rightarrow>
          (let got = take (nat len) (drop (nat (lobj_offset d)) (contents sv d))
           in (Inr got,
               sv\<lparr>cookies := (cookies sv)
                    [nat i := Some (d\<lparr>lobj_offset := lobj_offset d + int (length got)\<rparr>)]\<rparr>)))"

definition write_at :: "buffer \<Rightarrow> nat \<Rightarrow> buffer \<Rightarrow> buffer" where
  "write_at old off new =
     take off old @ replicate (off - length old) 0 @ new @ drop (off + length new) old"

definition lowrite :: "int \<Rightarrow> buffer \<Rightarrow> server \<Rightarrow> (pgerror + int) \<times> server" where
  "lowrite i buf sv =
     (case desc_of sv i of
        None \<Rightarrow> (Inl InvalidDescriptor, sv)
      | Some d \<Rightarrow>
          (case lobj_snapshot d of
             Some b \<Rightarrow> (Inl NotOpenForWriting, sv)
           | None \<Rightarrow>
               if MAX_LARGE_OBJECT_SIZE < lobj_offset d + int (length buf)
               then (Inl InvalidWriteSize, sv)
               else
               (Inr (int (length buf)),
                sv\<lparr>largeobjects :=
                     map (\<lambda>p. if fst p = lobj_id d
                               then (fst p, write_at (snd p) (nat (lobj_offset d)) buf) else p)
                       (largeobjects sv),
                   cookies := (cookies sv)
                     [nat i := Some (d\<lparr>lobj_offset := lobj_offset d + int (length buf)\<rparr>)]\<rparr>)))"

definition lo_tell64 :: "int \<Rightarrow> server \<Rightarrow> pgerror + int" where
  "lo_tell64 i sv =
     (case desc_of sv i of None \<Rightarrow> Inl InvalidDescriptor | Some d \<Rightarrow> Inr (lobj_offset d))"

definition lo_lseek64 :: "int \<Rightarrow> int \<Rightarrow> int \<Rightarrow> server \<Rightarrow> (pgerror + int) \<times> server" where
  "lo_lseek64 i off whence sv =
     (case desc_of sv i of
        None \<Rightarrow> (Inl InvalidDescriptor, sv)
      | Some d \<Rightarrow>
          if whence \<noteq> 0 \<and> whence \<noteq> 1 \<and> whence \<noteq> 2 then (Inl InvalidWhence, sv)
          else
            (let new = (if whence = 0 then off
                        else if whence = 1 then lobj_offset d + off
                        else int (length (contents sv d)) + off)
             in if new < 0 \<or> MAX_LARGE_OBJECT_SIZE < new then (Inl InvalidSeekTarget, sv)
                else (Inr new,
                      sv\<lparr>cookies := (cookies sv)[nat i := Some (d\<lparr>lobj_offset := new\<rparr>)]\<rparr>)))"

section \<open>Statements and the driver\<close>

text \<open>
  One constructor for each SQL text of the source, with the values interpolated into it.
  \<open>Select_size\<close> is the nested statement of \<open>sizeAsync\<close>.
\<close>

datatype stmt =
    Select_lo_close jsval
  | Select_loread jsval int
  | Select_lowrite jsval buffer
  | Select_lo_lseek64 jsval int int
  | Select_lo_tell64 jsval
  | Select_size jsval
  | Select_lo_open jsval "32 word"
  | Select_lo_creat "32 word"
  | Select_lo_unlink jsval

text \<open>
  The one row a statement returns: its integer columns as the driver delivers them
  (a 32-bit integer or an oid as a number, a 64-bit integer as a string of digits) and
  its \<open>bytea\<close> columns as Buffers, each under its column name.  A column without
  \<open>AS\<close> is named after the function.
\<close>

record reply =
  scalars :: "(string \<times> jsval) list"
  buffers :: "(string \<times> buffer) list"

definition int4_reply :: "string \<Rightarrow> int \<Rightarrow> reply" where
  "int4_reply name v = \<lparr>scalars = [(name, JNum v)], buffers = []\<rparr>"

text \<open>Destructuring \<open>const [{ name }] = rows\<close>: a missing column is \<open>undefined\<close>.\<close>

definition scalar_column :: "string \<Rightarrow> reply \<Rightarrow> jsval" where
  "scalar_column name r = (case map_of (scalars r) name of None \<Rightarrow> JUndefined | Some v \<Rightarrow> v)"

definition buffer_column :: "string \<Rightarrow> reply \<Rightarrow> buffer option" where
  "buffer_column name r = map_of (buffers r) name"

fun int_param :: "jsval \<Rightarrow> int option" where
  "int_param (JNum n) = Some n"
| "int_param (JDecStr i) = Some i"
| "int_param v = None"

text \<open>
  An identifier argument is an \<open>oid\<close>, an unsigned 32-bit integer: the engine reads a
  negative integer of 32 bits as the unsigned integer with the same bits.
\<close>

definition oid_param :: "jsval \<Rightarrow> nat option" where
  "oid_param v =
     (case int_param v of
        None \<Rightarrow> None
      | Some n \<Rightarrow>
          if 0 \<le> n then Some (nat n)
          else if - 2147483648 \<le> n then Some (nat (n + 4294967296))
          else None)"

fun exec :: "stmt \<Rightarrow> server \<Rightarrow> (pgerror + reply) \<times> server" where
  "exec (Select_lo_close f) sv =
     (case int_param f of
        None \<Rightarrow> (Inl InvalidText, sv)
      | Some i \<Rightarrow> (case lo_close i sv of
                    (Inl e, sv') \<Rightarrow> (Inl e, sv')
                  | (Inr v, sv') \<Rightarrow> (Inr (int4_reply ''ok'' v), sv')))"
| "exec (Select_loread f len) sv =
     (case int_param f of
        None \<Rightarrow> (Inl InvalidText, sv)
      | Some i \<Rightarrow> (case loread i len sv of
                    (Inl e, sv') \<Rightarrow> (Inl e, sv')
                  | (Inr b, sv') \<Rightarrow> (Inr \<lparr>scalars = [], buffers = [(''data'', b)]\<rparr>, sv')))"
| "exec (Select_lowrite f buf) sv =
     (case int_param f of
        None \<Rightarrow> (Inl InvalidText, sv)
      | Some i \<Rightarrow> (case lowrite i buf sv of
                    (Inl e, sv') \<Rightarrow> (Inl e, sv')
                  | (Inr v, sv') \<Rightarrow> (Inr (int4_reply ''lowrite'' v), sv')))"
| "exec (Select_lo_lseek64 f off whence) sv =
     (case int_param f of
        None \<Rightarrow> (Inl InvalidText, sv)
      | Some i \<Rightarrow> (case lo_lseek64 i off whence sv of
                    (Inl e, sv') \<Rightarrow> (Inl e, sv')
                  | (Inr v, sv') \<Rightarrow>
                      (Inr \<lparr>scalars = [(''lo_lseek64'', JDecStr v)], buffers = []\<rparr>, sv')))"
| "exec (Select_lo_tell64 f) sv =
     (case int_param f of
        None \<Rightarrow> (Inl InvalidText, sv)
      | Some i \<Rightarrow> (case lo_tell64 i sv of
                    Inl e \<Rightarrow> (Inl e, sv)
                  | Inr v \<Rightarrow> (Inr \<lparr>scalars = [(''location'', JDecStr v)], buffers = []\<rparr>, sv)))"
| "exec (Select_size f) sv =
     (case int_param f of
        None \<Rightarrow> (Inl InvalidText, sv)
      | Some i \<Rightarrow>
          (case lo_tell64 i sv of
             Inl e \<Rightarrow> (Inl e, sv)
           | Inr location \<Rightarrow>
               (case lo_lseek64 i 0 2 sv of
                  (Inl e, sv1) \<Rightarrow> (Inl e, sv1)
                | (Inr sz, sv1) \<Rightarrow>
                    (case lo_lseek64 i location 0 sv1 of
                       (Inl e, sv2) \<Rightarrow> (Inl e, sv2)
                     | (Inr back, sv2) \<Rightarrow>
                         (Inr \<lparr>scalars = [(''lo_lseek64'', JDecStr back), (''size'', JDecStr sz)],
                               buffers = []\<rparr>, sv2)))))"
| "exec (Select_lo_open ident mode) sv =
     (case oid_param ident of
        None \<Rightarrow> (Inl InvalidText, sv)
      | Some n \<Rightarrow> (case lo_open n mode sv of
                    (Inl e, sv') \<Rightarrow> (Inl e, sv')
                  | (Inr v, sv') \<Rightarrow> (Inr (int4_reply ''fd'' v), sv')))"
| "exec (Select_lo_creat mode) sv =
     (case lo_creat mode sv of
        (Inl e, sv') \<Rightarrow> (Inl e, sv')
      | (Inr n, sv') \<Rightarrow> (Inr (int4_reply ''oid'' (int n)), sv'))"
| "exec (Select_lo_unlink ident) sv =
     (case oid_param ident of
        None \<Rightarrow> (Inl InvalidText, sv)
      | Some n \<Rightarrow> (case lo_unlink n sv of
                    (Inl e, sv') \<Rightarrow> (Inl e, sv')
                  | (Inr v, sv') \<Rightarrow> (Inr (int4_reply ''ok'' v), sv')))"

text \<open>
  What the client can throw or be rejected with: a plain string (\<open>throw 'text'\<close>), an
  \<open>Error\<close> object with its message (\<open>throw Error('text')\<close>), the engine's error, or
  an error of Node's stream classes, named by its code.
\<close>

datatype exn = ThrownString string | ErrorObject string | RemoteError pgerror | NodeError string

text \<open>
  The world the client acts on: the engine, the statements sent to it so far (the remote
  calls, in order) and what was printed with \<open>console.error\<close>.
\<close>

record world =
  server :: server
  sent :: "stmt list"
  console :: "exn list"

text \<open>\<open>await this._sql`...`\<close>: one round trip, resolved with the row or rejected.\<close>

definition sql :: "stmt \<Rightarrow> world \<Rightarrow> (exn + reply) \<times> world" where
  "sql q w =
     (case exec q (server w) of
        (Inl e, sv) \<Rightarrow> (Inl (RemoteError e), w\<lparr>server := sv, sent := sent w @ [q]\<rparr>)
      | (Inr r, sv) \<Rightarrow> (Inr r, w\<lparr>server := sv, sent := sent w @ [q]\<rparr>))"

section \<open>LargeObject: one open large object\<close>

text \<open>
  \<open>LargeObject.ts\<close>.  The object keeps the identifier and the descriptor; the
  transaction handle \<open>_sql\<close> is the world, passed explicitly.  Every method is an
  \<open>async\<close> function with a single \<open>await\<close> of a single statement, so a call is
  one step: the statement is sent and runs, and the method returns or rejects.  The
  variants that take a callback are \<open>callbackify\<close> of these.  \<open>truncateAsync\<close>,
  which no property below refers to, is left out.
\<close>

definition SEEK_SET :: int where "SEEK_SET = 0"
definition SEEK_CUR :: int where "SEEK_CUR = 1"
definition SEEK_END :: int where "SEEK_END = 2"

record LargeObject =
  oid :: jsval
  fd :: jsval

definition closeAsync :: "LargeObject \<Rightarrow> world \<Rightarrow> (exn + unit) \<times> world" where
  "closeAsync obj w =
     (case sql (Select_lo_close (fd obj)) w of
        (Inl e, w') \<Rightarrow> (Inl e, w')
      | (Inr r, w') \<Rightarrow> (Inr (), w'))"

definition readAsync :: "LargeObject \<Rightarrow> int \<Rightarrow> world \<Rightarrow> (exn + buffer option) \<times> world" where
  "readAsync obj len w =
     (case sql (Select_loread (fd obj) len) w of
        (Inl e, w') \<Rightarrow> (Inl e, w')
      | (Inr r, w') \<Rightarrow> (Inr (buffer_column ''data'' r), w'))"

definition writeAsync :: "LargeObject \<Rightarrow> buffer \<Rightarrow> world \<Rightarrow> (exn + unit) \<times> world" where
  "writeAsync obj buf w =
     (case sql (Select_lowrite (fd obj) buf) w of
        (Inl e, w') \<Rightarrow> (Inl e, w')
      | (Inr r, w') \<Rightarrow> (Inr (), w'))"

text \<open>
  The statement of \<open>seekAsync\<close> names no column \<open>location\<close>, and its result is
  returned as destructured, without \<open>+\<close>.
\<close>

definition seekAsync :: "LargeObject \<Rightarrow> int \<Rightarrow> int \<Rightarrow> world \<Rightarrow> (exn + jsval) \<times> world" where
  "seekAsync obj position ref w =
     (case sql (Select_lo_lseek64 (fd obj) position ref) w of
        (Inl e, w') \<Rightarrow> (Inl e, w')
      | (Inr r, w') \<Rightarrow> (Inr (scalar_column ''location'' r), w'))"

definition tellAsync :: "LargeObject \<Rightarrow> world \<Rightarrow> (exn + jsval) \<times> world" where
  "tellAsync obj w =
     (case sql (Select_lo_tell64 (fd obj)) w of
        (Inl e, w') \<Rightarrow> (Inl e, w')
      | (Inr r, w') \<Rightarrow> (Inr (unary_plus (scalar_column ''location'' r)), w'))"

definition sizeAsync :: "LargeObject \<Rightarrow> world \<Rightarrow> (exn + jsval) \<times> world" where
  "sizeAsync obj w =
     (case sql (Select_size (fd obj)) w of
        (Inl e, w') \<Rightarrow> (Inl e, w')
      | (Inr r, w') \<Rightarrow> (Inr (unary_plus (scalar_column ''size'' r)), w'))"

section \<open>The host streams and the calls in flight\<close>

text \<open>
  \<open>ReadStream\<close> and \<open>WriteStream\<close> extend Node's \<open>stream.Readable\<close> and
  \<open>stream.Writable\<close>.  Of the host classes the records keep what the adapters and the
  manager touch: the high-water mark, the flag that a \<open>_read\<close> or \<open>_write\<close> is
  outstanding, the end flags, the listeners registered with \<open>on\<close>, and what the
  consumer has observed (\<open>data\<close> and \<open>error\<close> events, in order).  The consumer
  takes every chunk as it is pushed (flowing mode).

  A listener is the \<open>async\<close> arrow function that the manager's composite operations
  register: it closes the object and prints a warning when that fails.
\<close>

datatype listener = CloseOnEvent LargeObject

record ReadStream =
  r_largeObject :: LargeObject
  r_highWaterMark :: int
  reading :: bool
  ended :: bool
  delivered :: "buffer list"
  r_errors :: "exn list"
  end_listeners :: "listener list"

record WriteStream =
  w_largeObject :: LargeObject
  w_highWaterMark :: int
  writing :: bool
  buffered :: "buffer list"
  ending :: bool
  finished :: bool
  w_errors :: "exn list"
  finish_due :: bool
  finish_listeners :: "listener list"
  accepted :: "buffer list"

text \<open>
  The constructors: \<open>highWaterMark: bufferSize || 16384\<close>.  The host class refuses a
  negative high-water mark: its constructor throws \<open>ERR_INVALID_ARG_VALUE\<close>, and so
  does \<open>new ReadStream\<close> or \<open>new WriteStream\<close>.  Chunk sizes are integers here; a
  fractional one, which the host refuses in the same way, is not described.
  \<open>accepted\<close> records the chunks the writable stream took from its producer,
  \<open>finish_due\<close> that \<open>end\<close> has scheduled the \<open>finish\<close> event.
\<close>

definition new_ReadStream :: "LargeObject \<Rightarrow> int \<Rightarrow> exn + ReadStream" where
  "new_ReadStream obj bufferSize =
     (let highWaterMark = (if bufferSize = 0 then 16384 else bufferSize) in
      if highWaterMark < 0 then Inl (NodeError ''ERR_INVALID_ARG_VALUE'')
      else Inr \<lparr>r_largeObject = obj, r_highWaterMark = highWaterMark,
                reading = False, ended = False, delivered = [], r_errors = [],
                end_listeners = []\<rparr>)"

definition new_WriteStream :: "LargeObject \<Rightarrow> int \<Rightarrow> exn + WriteStream" where
  "new_WriteStream obj bufferSize =
     (let highWaterMark = (if bufferSize = 0 then 16384 else bufferSize) in
      if highWaterMark < 0 then Inl (NodeError ''ERR_INVALID_ARG_VALUE'')
      else Inr \<lparr>w_largeObject = obj, w_highWaterMark = highWaterMark,
                writing = False, buffered = [], ending = False, finished = False,
                w_errors = [], finish_due = False, finish_listeners = [], accepted = []\<rparr>)"

text \<open>\<open>getReadableStream\<close>, \<open>getWritableStream\<close>: the parameter defaults to 16384.\<close>

definition getReadableStream :: "LargeObject \<Rightarrow> int option \<Rightarrow> exn + ReadStream" where
  "getReadableStream obj bufferSize =
     new_ReadStream obj (case bufferSize of None \<Rightarrow> 16384 | Some n \<Rightarrow> n)"

definition getWritableStream :: "LargeObject \<Rightarrow> int option \<Rightarrow> exn + WriteStream" where
  "getWritableStream obj bufferSize =
     new_WriteStream obj (case bufferSize of None \<Rightarrow> 16384 | Some n \<Rightarrow> n)"

text \<open>
  A call of an \<open>async\<close> method that has been made and has not settled yet.  The calls
  in flight are a queue: the driver sends the statements of one transaction over one
  connection, and they settle in the order they were made.  When a call settles, its
  statement has run on the engine and the code waiting for it continues:
  \<^item> \<open>ReadCall obj len\<close>: \<open>this._largeObject.read(length, callback)\<close> of
    \<open>ReadStream._read\<close>, whose arrow function is the callback;
  \<^item> \<open>WriteCall obj buf\<close>: \<open>this._largeObject.write(chunk, callback)\<close> of
    \<open>WriteStream._write\<close>, whose callback is the host's;
  \<^item> \<open>CloseCall obj\<close>: \<open>await obj.closeAsync()\<close> of a listener, followed by its
    \<open>catch\<close>.

  A readable stream issues no write and a writable stream no read; where such a call
  settles all the same, no code waits for it.
\<close>

datatype call = ReadCall LargeObject int | WriteCall LargeObject buffer | CloseCall LargeObject

record 's sys =
  world :: world
  pending :: "call list"
  stream :: 's

definition issue :: "call \<Rightarrow> 's sys \<Rightarrow> 's sys" where
  "issue c s = s\<lparr>pending := pending s @ [c]\<rparr>"

fun run_listener :: "listener \<Rightarrow> 's sys \<Rightarrow> 's sys" where
  "run_listener (CloseOnEvent obj) s = issue (CloseCall obj) s"

text \<open>
  The rest of a listener, once its \<open>closeAsync\<close> has settled:
  \<open>catch (err) { console.error('Warning: closing a large object failed:', err) }\<close>.
\<close>

definition close_settled :: "(exn + unit) \<times> world \<Rightarrow> 's sys \<Rightarrow> 's sys" where
  "close_settled res s =
     (case res of
        (Inl err, w') \<Rightarrow> s\<lparr>world := w'\<lparr>console := console w' @ [err]\<rparr>\<rparr>
      | (Inr u, w') \<Rightarrow> s\<lparr>world := w'\<rparr>)"

section \<open>ReadStream\<close>

text \<open>
  The host side of a readable stream (Node's \<open>Readable.push\<close> in byte mode).  A
  chunk with bytes is handed to the consumer, an empty or missing chunk only ends the
  outstanding \<open>_read\<close>; a chunk with bytes after the end is an error.  \<open>push(null)\<close>
  ends the stream and the \<open>end\<close> listeners run.
\<close>

definition readable_push :: "buffer option \<Rightarrow> ReadStream sys \<Rightarrow> ReadStream sys" where
  "readable_push chunk s =
     (let r = stream s in
      case chunk of
        None \<Rightarrow> s\<lparr>stream := r\<lparr>reading := False\<rparr>\<rparr>
      | Some b \<Rightarrow>
          if b = [] then s\<lparr>stream := r\<lparr>reading := False\<rparr>\<rparr>
          else if ended r
            then s\<lparr>stream := r\<lparr>r_errors := r_errors r @ [NodeError ''ERR_STREAM_PUSH_AFTER_EOF'']\<rparr>\<rparr>
          else s\<lparr>stream := r\<lparr>reading := False, delivered := delivered r @ [b]\<rparr>\<rparr>)"

definition readable_push_null :: "ReadStream sys \<Rightarrow> ReadStream sys" where
  "readable_push_null s =
     (let r = stream s in
      if ended r then s\<lparr>stream := r\<lparr>reading := False\<rparr>\<rparr>
      else fold run_listener (end_listeners r) (s\<lparr>stream := r\<lparr>reading := False, ended := True\<rparr>\<rparr>))"

definition readable_emit_error :: "exn \<Rightarrow> ReadStream sys \<Rightarrow> ReadStream sys" where
  "readable_emit_error e s = s\<lparr>stream := (stream s)\<lparr>r_errors := r_errors (stream s) @ [e]\<rparr>\<rparr>"

text \<open>
  \<open>ReadStream._read\<close>.  The first component of the result is what the method throws,
  if it throws.  The arrow function passed to \<open>read\<close> is \<open>ReadStream_read_callback\<close>;
  it closes over \<open>length\<close>, which the call in flight carries.
\<close>

definition ReadStream_read :: "int \<Rightarrow> ReadStream sys \<Rightarrow> exn option \<times> ReadStream sys" where
  "ReadStream_read len s =
     (if len \<le> 0 then (Some (ThrownString ''Illegal Argument''), s)
      else (None, issue (ReadCall (r_largeObject (stream s)) len) s))"

definition ReadStream_read_callback ::
    "int \<Rightarrow> exn + buffer option \<Rightarrow> ReadStream sys \<Rightarrow> ReadStream sys" where
  "ReadStream_read_callback len res s =
     (case res of
        Inl error \<Rightarrow> readable_emit_error error s
      | Inr data \<Rightarrow>
          (let s1 = readable_push data s in
           case data of
             None \<Rightarrow> readable_push_null s1
           | Some b \<Rightarrow> if int (length b) < len then readable_push_null s1 else s1))"

text \<open>
  The host asks for data (\<open>Readable.read\<close>): unless a \<open>_read\<close> is outstanding or the
  stream has ended, it marks the stream as reading and calls \<open>_read(highWaterMark)\<close>;
  what \<open>_read\<close> throws lands on the error channel.
\<close>

definition readable_pull :: "ReadStream sys \<Rightarrow> ReadStream sys" where
  "readable_pull s =
     (let r = stream s in
      if reading r \<or> ended r then s
      else case ReadStream_read (r_highWaterMark r) (s\<lparr>stream := r\<lparr>reading := True\<rparr>\<rparr>) of
             (None, s') \<Rightarrow> s'
           | (Some e, s') \<Rightarrow> readable_emit_error e s')"

text \<open>The oldest call in flight settles.\<close>

definition readable_settle :: "ReadStream sys \<Rightarrow> ReadStream sys" where
  "readable_settle s =
     (case pending s of
        [] \<Rightarrow> s
      | c # rest \<Rightarrow>
          (let s0 = s\<lparr>pending := rest\<rparr> in
           case c of
             ReadCall obj len \<Rightarrow>
               (case readAsync obj len (world s0) of
                  (res, w') \<Rightarrow> ReadStream_read_callback len res (s0\<lparr>world := w'\<rparr>))
           | WriteCall obj buf \<Rightarrow>
               (case writeAsync obj buf (world s0) of (res, w') \<Rightarrow> s0\<lparr>world := w'\<rparr>)
           | CloseCall obj \<Rightarrow> close_settled (closeAsync obj (world s0)) s0))"

datatype readable_event = Pull | Settle

fun readable_step :: "readable_event \<Rightarrow> ReadStream sys \<Rightarrow> ReadStream sys" where
  "readable_step Pull s = readable_pull s"
| "readable_step Settle s = readable_settle s"

definition readable_run :: "readable_event list \<Rightarrow> ReadStream sys \<Rightarrow> ReadStream sys" where
  "readable_run evs s = fold readable_step evs s"

section \<open>WriteStream\<close>

datatype chunk = Buffer buffer | NotBuffer jsval

text \<open>
  \<open>WriteStream._write\<close>: \<open>Buffer.isBuffer(chunk)\<close> is the test on the constructor.
  The callback handed on to \<open>write\<close> is the host's (\<open>writable_onwrite\<close> below).
\<close>

definition WriteStream_write :: "chunk \<Rightarrow> WriteStream sys \<Rightarrow> exn option \<times> WriteStream sys" where
  "WriteStream_write c s =
     (case c of
        NotBuffer v \<Rightarrow> (Some (ThrownString ''Illegal Argument''), s)
      | Buffer b \<Rightarrow> (None, issue (WriteCall (w_largeObject (stream s)) b) s))"

text \<open>
  The host side of a writable stream (Node's \<open>Writable\<close> in byte mode, which hands
  \<open>_write\<close> Buffers only).  \<open>write\<close> takes a chunk unless the stream is ending or
  has failed; the chunk goes to \<open>_write\<close> at once when none is outstanding and into
  the buffer otherwise.  When \<open>_write\<close> calls back, the next buffered chunk is
  dispatched; a failure stops the stream.  \<open>finish\<close> is emitted once \<open>end\<close> was
  called and nothing is outstanding or buffered: after the last write has called back,
  or, when \<open>end\<close> finds the stream idle, on a later tick and only if the stream is
  still fit to finish then (a write after \<open>end\<close> is an error and cancels it).
\<close>

definition writable_dispatch :: "buffer \<Rightarrow> WriteStream sys \<Rightarrow> WriteStream sys" where
  "writable_dispatch b s =
     (case WriteStream_write (Buffer b) (s\<lparr>stream := (stream s)\<lparr>writing := True\<rparr>\<rparr>) of
        (None, s') \<Rightarrow> s'
      | (Some e, s') \<Rightarrow> s'\<lparr>stream := (stream s')\<lparr>w_errors := w_errors (stream s') @ [e]\<rparr>\<rparr>)"

definition writable_finish :: "WriteStream sys \<Rightarrow> WriteStream sys" where
  "writable_finish s =
     fold run_listener (finish_listeners (stream s)) (s\<lparr>stream := (stream s)\<lparr>finished := True\<rparr>\<rparr>)"

definition writable_write :: "buffer \<Rightarrow> WriteStream sys \<Rightarrow> WriteStream sys" where
  "writable_write b s =
     (let t = stream s in
      if w_errors t \<noteq> [] then s
      else if ending t
        then s\<lparr>stream := t\<lparr>w_errors := [NodeError ''ERR_STREAM_WRITE_AFTER_END'']\<rparr>\<rparr>
      else if writing t
        then s\<lparr>stream := t\<lparr>buffered := buffered t @ [b], accepted := accepted t @ [b]\<rparr>\<rparr>
      else writable_dispatch b (s\<lparr>stream := t\<lparr>accepted := accepted t @ [b]\<rparr>\<rparr>))"

definition writable_end :: "WriteStream sys \<Rightarrow> WriteStream sys" where
  "writable_end s =
     (let t = stream s in
      if ending t \<or> w_errors t \<noteq> [] then s
      else s\<lparr>stream := t\<lparr>ending := True,
                            finish_due := (\<not> writing t \<and> buffered t = [])\<rparr>\<rparr>)"

definition writable_tick :: "WriteStream sys \<Rightarrow> WriteStream sys" where
  "writable_tick s =
     (let t = (stream s)\<lparr>finish_due := False\<rparr> in
      if finish_due (stream s) \<and> ending t \<and> w_errors t = [] \<and> buffered t = [] \<and>
         \<not> writing t \<and> \<not> finished t
      then writable_finish (s\<lparr>stream := t\<rparr>)
      else s\<lparr>stream := t\<rparr>)"

definition writable_onwrite :: "exn + unit \<Rightarrow> WriteStream sys \<Rightarrow> WriteStream sys" where
  "writable_onwrite res s =
     (let t = (stream s)\<lparr>writing := False\<rparr> in
      case res of
        Inl e \<Rightarrow> s\<lparr>stream := t\<lparr>w_errors := w_errors t @ [e]\<rparr>\<rparr>
      | Inr u \<Rightarrow>
          if w_errors t \<noteq> [] then s\<lparr>stream := t\<rparr>
          else (case buffered t of
                  b # rest \<Rightarrow> writable_dispatch b (s\<lparr>stream := t\<lparr>buffered := rest\<rparr>\<rparr>)
                | [] \<Rightarrow> if ending t \<and> \<not> finished t then writable_finish (s\<lparr>stream := t\<rparr>)
                        else s\<lparr>stream := t\<rparr>))"

definition writable_settle :: "WriteStream sys \<Rightarrow> WriteStream sys" where
  "writable_settle s =
     (case pending s of
        [] \<Rightarrow> s
      | c # rest \<Rightarrow>
          (let s0 = s\<lparr>pending := rest\<rparr> in
           case c of
             WriteCall obj buf \<Rightarrow>
               (case writeAsync obj buf (world s0) of
                  (res, w') \<Rightarrow> writable_onwrite res (s0\<lparr>world := w'\<rparr>))
           | ReadCall obj len \<Rightarrow>
               (case readAsync obj len (world s0) of (res, w') \<Rightarrow> s0\<lparr>world := w'\<rparr>)
           | CloseCall obj \<Rightarrow> close_settled (closeAsync obj (world s0)) s0))"

datatype writable_event = Write buffer | End | Tick | Settled

fun writable_step :: "writable_event \<Rightarrow> WriteStream sys \<Rightarrow> WriteStream sys" where
  "writable_step (Write b) s = writable_write b s"
| "writable_step End s = writable_end s"
| "writable_step Tick s = writable_tick s"
| "writable_step Settled s = writable_settle s"

definition writable_run :: "writable_event list \<Rightarrow> WriteStream sys \<Rightarrow> WriteStream sys" where
  "writable_run evs s = fold writable_step evs s"

section \<open>LargeObjectManager\<close>

definition WRITE :: "32 word" where "WRITE = 0x00020000"
definition READ :: "32 word" where "READ = 0x00040000"
definition READWRITE :: "32 word" where "READWRITE = 0x00020000 OR 0x00040000"

definition openAsync :: "jsval \<Rightarrow> 32 word \<Rightarrow> world \<Rightarrow> (exn + LargeObject) \<times> world" where
  "openAsync ident mode w =
     (if \<not> truthy ident then (Inl (ErrorObject ''Illegal Argument''), w)
      else case sql (Select_lo_open ident mode) w of
             (Inl e, w') \<Rightarrow> (Inl e, w')
           | (Inr r, w') \<Rightarrow> (Inr \<lparr>oid = ident, fd = scalar_column ''fd'' r\<rparr>, w'))"

definition createAsync :: "world \<Rightarrow> (exn + jsval) \<times> world" where
  "createAsync w =
     (case sql (Select_lo_creat READWRITE) w of
        (Inl e, w') \<Rightarrow> (Inl e, w')
      | (Inr r, w') \<Rightarrow> (Inr (scalar_column ''oid'' r), w'))"

definition unlinkAsync :: "jsval \<Rightarrow> world \<Rightarrow> (exn + unit) \<times> world" where
  "unlinkAsync ident w =
     (if \<not> truthy ident then (Inl (ErrorObject ''Illegal Argument''), w)
      else case sql (Select_lo_unlink ident) w of
             (Inl e, w') \<Rightarrow> (Inl e, w')
           | (Inr r, w') \<Rightarrow> (Inr (), w'))"

text \<open>
  The composite operations.  \<open>stream.on('end', ...)\<close> and \<open>stream.on('finish', ...)\<close>
  add the listener to the stream; the parameter \<open>bufferSize\<close> defaults to 16384.  What
  the constructor of the stream throws rejects the operation, after its statements.
\<close>

definition openAndReadableStreamAsync ::
    "jsval \<Rightarrow> int option \<Rightarrow> world \<Rightarrow> (exn + jsval \<times> ReadStream) \<times> world" where
  "openAndReadableStreamAsync ident bufferSize w =
     (case openAsync ident READ w of
        (Inl e, w1) \<Rightarrow> (Inl e, w1)
      | (Inr obj, w1) \<Rightarrow>
          (case sizeAsync obj w1 of
             (Inl e, w2) \<Rightarrow> (Inl e, w2)
           | (Inr sz, w2) \<Rightarrow>
               (case getReadableStream obj
                       (Some (case bufferSize of None \<Rightarrow> 16384 | Some n \<Rightarrow> n)) of
                  Inl e \<Rightarrow> (Inl e, w2)
                | Inr st \<Rightarrow>
                    (Inr (sz, st\<lparr>end_listeners := end_listeners st @ [CloseOnEvent obj]\<rparr>),
                     w2))))"

definition createAndWritableStreamAsync ::
    "int option \<Rightarrow> world \<Rightarrow> (exn + jsval \<times> WriteStream) \<times> world" where
  "createAndWritableStreamAsync bufferSize w =
     (case createAsync w of
        (Inl e, w1) \<Rightarrow> (Inl e, w1)
      | (Inr ident, w1) \<Rightarrow>
          (case openAsync ident WRITE w1 of
             (Inl e, w2) \<Rightarrow> (Inl e, w2)
           | (Inr obj, w2) \<Rightarrow>
               (case getWritableStream obj
                       (Some (case bufferSize of None \<Rightarrow> 16384 | Some n \<Rightarrow> n)) of
                  Inl e \<Rightarrow> (Inl e, w2)
                | Inr st \<Rightarrow>
                    (Inr (ident,
                          st\<lparr>finish_listeners := finish_listeners st @ [CloseOnEvent obj]\<rparr>),
                     w2))))"

section \<open>Callers and observations\<close>

text \<open>
  What the engine holds for a handle: the position of its descriptor and the length of
  the contents the descriptor sees.  \<open>None\<close> when the descriptor is not open.
\<close>

definition descriptor_of :: "LargeObject \<Rightarrow> server \<Rightarrow> LargeObjectDesc option" where
  "descriptor_of obj sv = (case int_param (fd obj) of None \<Rightarrow> None | Some i \<Rightarrow> desc_of sv i)"

definition position_of :: "LargeObject \<Rightarrow> server \<Rightarrow> int option" where
  "position_of obj sv = map_option lobj_offset (descriptor_of obj sv)"

definition length_of :: "LargeObject \<Rightarrow> server \<Rightarrow> nat option" where
  "length_of obj sv = map_option (\<lambda>d. length (contents sv d)) (descriptor_of obj sv)"

definition remaining_of :: "LargeObject \<Rightarrow> server \<Rightarrow> buffer option" where
  "remaining_of obj sv =
     map_option (\<lambda>d. drop (nat (lobj_offset d)) (contents sv d)) (descriptor_of obj sv)"

text \<open>The descriptor of the handle is open at a position that the engine allows.\<close>

definition position_ok :: "LargeObject \<Rightarrow> server \<Rightarrow> bool" where
  "position_ok obj sv =
     (case descriptor_of obj sv of
        None \<Rightarrow> False
      | Some d \<Rightarrow> 0 \<le> lobj_offset d \<and> lobj_offset d \<le> MAX_LARGE_OBJECT_SIZE)"

text \<open>
  A caller that awaits a sequence of reads and seeks on a handle, one after the other,
  and stops at the first one that is rejected.
\<close>

datatype handle_op = ReadOp int | SeekOp int int

fun do_op :: "LargeObject \<Rightarrow> handle_op \<Rightarrow> world \<Rightarrow> (exn + unit) \<times> world" where
  "do_op obj (ReadOp len) w =
     (case readAsync obj len w of (Inl e, w') \<Rightarrow> (Inl e, w') | (Inr b, w') \<Rightarrow> (Inr (), w'))"
| "do_op obj (SeekOp position ref) w =
     (case seekAsync obj position ref w of (Inl e, w') \<Rightarrow> (Inl e, w') | (Inr v, w') \<Rightarrow> (Inr (), w'))"

fun do_ops :: "LargeObject \<Rightarrow> handle_op list \<Rightarrow> world \<Rightarrow> (exn + unit) \<times> world" where
  "do_ops obj [] w = (Inr (), w)"
| "do_ops obj (x # xs) w =
     (case do_op obj x w of (Inl e, w') \<Rightarrow> (Inl e, w') | (Inr u, w') \<Rightarrow> do_ops obj xs w')"

text \<open>
  The writes of a log of statements and of a queue of calls in flight, in order: the
  descriptor and the bytes of each.
\<close>

fun writes_sent :: "stmt list \<Rightarrow> (jsval \<times> buffer) list" where
  "writes_sent [] = []"
| "writes_sent (Select_lowrite f b # qs) = (f, b) # writes_sent qs"
| "writes_sent (q # qs) = writes_sent qs"

fun writes_in_flight :: "call list \<Rightarrow> (jsval \<times> buffer) list" where
  "writes_in_flight [] = []"
| "writes_in_flight (WriteCall obj b # cs) = (fd obj, b) # writes_in_flight cs"
| "writes_in_flight (c # cs) = writes_in_flight cs"

text \<open>
  What holds of a writable stream on \<open>obj\<close> at every moment, \<open>base\<close> being the
  writes sent before the stream was made.
\<close>

definition write_inv :: "(jsval \<times> buffer) list \<Rightarrow> LargeObject \<Rightarrow> WriteStream sys \<Rightarrow> bool" where
  "write_inv base obj s =
     (w_largeObject (stream s) = obj \<and>
      length (writes_in_flight (pending s)) \<le> 1 \<and>
      writing (stream s) = (writes_in_flight (pending s) \<noteq> []) \<and>
      (buffered (stream s) = [] \<or> writing (stream s) \<or> w_errors (stream s) \<noteq> []) \<and>
      writes_sent (sent (world s)) @ writes_in_flight (pending s) @
          map (Pair (fd obj)) (buffered (stream s)) =
        base @ map (Pair (fd obj)) (accepted (stream s)))"

section \<open>The objects of the test suite\<close>

text \<open>
  \<open>testBuf\<close> is the buffer \<open>0123456789ABCDEF\<close> of \<open>index.test.ts\<close>;
  \<open>test_world\<close> is an engine that stores it as large object 16385, with nothing open,
  nothing sent and nothing printed.
\<close>

definition testBuf :: buffer where
  "testBuf = [0x01, 0x23, 0x45, 0x67, 0x89, 0xAB, 0xCD, 0xEF]"

definition test_world :: world where
  "test_world =
     \<lparr>server = \<lparr>largeobjects = [(16385, testBuf)], cookies = []\<rparr>, sent = [], console = []\<rparr>"

text \<open>
  \<open>test_handle\<close> is the handle that opening object 16385 in \<open>test_world\<close> returns,
  \<open>opened_world\<close> the world after that call.
\<close>

definition test_handle :: LargeObject where
  "test_handle = \<lparr>oid = JNum 16385, fd = JNum 0\<rparr>"

definition opened_world :: world where
  "opened_world = snd (openAsync (JNum 16385) READ test_world)"

text \<open>The test \<open>tell after size\<close> reads two bytes first.\<close>

definition after_read2 :: world where
  "after_read2 = snd (do_ops test_handle [ReadOp 2] opened_world)"

text \<open>
  The streams of the tests: with the default chunk size on \<open>test_handle\<close>, as
  \<open>getReadableStream\<close> and \<open>openAndReadableStreamAsync\<close> build them.
\<close>

definition plain_reader :: ReadStream where
  "plain_reader =
     \<lparr>r_largeObject = test_handle, r_highWaterMark = 16384, reading = False, ended = False,
      delivered = [], r_errors = [], end_listeners = []\<rparr>"

definition test_reader :: ReadStream where
  "test_reader = plain_reader\<lparr>end_listeners := [CloseOnEvent test_handle]\<rparr>"

definition sized_world :: world where
  "sized_world = snd (openAndReadableStreamAsync (JNum 16385) None test_world)"

text \<open>
  A stream on \<open>test_handle\<close> whose chunk size is \<open>2^31\<close>, and the world after a seek to
  position 3.
\<close>

definition huge_reader :: ReadStream where
  "huge_reader = plain_reader\<lparr>r_highWaterMark := 2147483648\<rparr>"

definition sought_world :: world where
  "sought_world = snd (seekAsync test_handle 3 SEEK_SET opened_world)"

text \<open>
  The test \<open>write stream\<close> creates an object and a stream on it: in \<open>test_world\<close>
  the new object is 16386 and its descriptor is again 0.
\<close>

definition write_handle :: LargeObject where
  "write_handle = \<lparr>oid = JNum 16386, fd = JNum 0\<rparr>"

definition created_world :: world where
  "created_world = snd (createAndWritableStreamAsync None test_world)"

text \<open>The streams on the new object, as \<open>getWritableStream\<close> and
  \<open>createAndWritableStreamAsync\<close> build them.\<close>

definition plain_writer :: WriteStream where
  "plain_writer =
     \<lparr>w_largeObject = write_handle, w_highWaterMark = 16384, writing = False, buffered = [],
      ending = False, finished = False, w_errors = [], finish_due = False,
      finish_listeners = [], accepted = []\<rparr>"

definition test_writer :: WriteStream where
  "test_writer = plain_writer\<lparr>finish_listeners := [CloseOnEvent write_handle]\<rparr>"

section \<open>Remote calls\<close>

lemma sent_sql: "sent (snd (sql q w)) = sent w @ [q]"
  by (simp add: sql_def split: prod.splits sum.splits)

lemma console_sql: "console (snd (sql q w)) = console w"
  by (simp add: sql_def split: prod.splits sum.splits)

lemmas eval_defs =
  test_world_def testBuf_def test_handle_def opened_world_def
  openAsync_def readAsync_def seekAsync_def tellAsync_def sizeAsync_def closeAsync_def
  writeAsync_def createAsync_def unlinkAsync_def
  sql_def lo_open_def lo_close_def loread_def lowrite_def lo_tell64_def lo_lseek64_def
  lo_creat_def lo_unlink_def fresh_oid_def write_at_def
  put_desc_def desc_of_def contents_def stored_def clip_def MAX_LARGE_OBJECT_SIZE_def
  oid_param_def int4_reply_def
  scalar_column_def buffer_column_def READ_def WRITE_def READWRITE_def INV_READ_def INV_WRITE_def
  SEEK_SET_def SEEK_CUR_def SEEK_END_def Let_def
  descriptor_of_def position_of_def length_of_def remaining_of_def

section \<open>Numbers\<close>

lemma bitlen_le: "bitlen n \<le> k \<longleftrightarrow> n < 2 ^ k"
proof (induction n arbitrary: k rule: bitlen.induct)
  case (1 n)
  show ?case
  proof (cases "n = 0")
    case True
    then show ?thesis by (simp add: bitlen.simps)
  next
    case False
    show ?thesis
    proof (cases k)
      case 0
      with False show ?thesis by (simp add: bitlen.simps [of n])
    next
      case (Suc j)
      have "bitlen n \<le> Suc j \<longleftrightarrow> bitlen (n div 2) \<le> j"
        using False by (simp add: bitlen.simps [of n])
      also have "\<dots> \<longleftrightarrow> n div 2 < 2 ^ j"
        using "1.IH" [OF False] .
      also have "\<dots> \<longleftrightarrow> n < 2 ^ Suc j"
        by (simp add: div_less_iff_less_mult mult.commute)
      finally show ?thesis using Suc by simp
    qed
  qed
qed

lemma nearest_double_exact: "\<bar>x\<bar> \<le> 2 ^ 53 \<Longrightarrow> nearest_double x = x"
proof (cases "\<bar>x\<bar> = 2 ^ 53")
  case True
  then consider "x = 2 ^ 53" | "x = - (2 ^ 53)" by linarith
  then show ?thesis
  proof cases
    case 1
    show ?thesis unfolding 1 by (simp add: nearest_double_def Let_def bitlen.simps)
  next
    case 2
    show ?thesis unfolding 2 by (simp add: nearest_double_def Let_def bitlen.simps)
  qed
next
  case False
  assume "\<bar>x\<bar> \<le> 2 ^ 53"
  with False have "\<bar>x\<bar> < 2 ^ 53" by linarith
  then have "nat \<bar>x\<bar> < 2 ^ 53" by (simp add: nat_less_iff)
  then have "bitlen (nat \<bar>x\<bar>) \<le> 53" by (simp only: bitlen_le)
  then show ?thesis by (simp add: nearest_double_def Let_def)
qed

section \<open>The descriptor table\<close>

lemma desc_of_update:
  "desc_of sv i = Some d \<Longrightarrow> desc_of (sv\<lparr>cookies := (cookies sv)[nat i := c]\<rparr>) i = c"
  by (simp add: desc_of_def split: if_splits)

lemma contents_cookies [simp]: "contents (sv\<lparr>cookies := cs\<rparr>) d = contents sv d"
  by (simp add: contents_def stored_def split: option.splits)

lemma contents_offset [simp]: "contents sv (d\<lparr>lobj_offset := p\<rparr>) = contents sv d"
  by (simp add: contents_def split: option.splits)

lemma length_clip: "int (length (clip b)) \<le> MAX_LARGE_OBJECT_SIZE"
  by (simp add: clip_def MAX_LARGE_OBJECT_SIZE_def)

lemma length_contents: "int (length (contents sv d)) \<le> MAX_LARGE_OBJECT_SIZE"
proof (cases "lobj_snapshot d")
  case (Some b)
  then show ?thesis by (simp add: contents_def length_clip)
next
  case None
  show ?thesis
  proof (cases "map_of (largeobjects sv) (lobj_id d)")
    case (Some b)
    with None show ?thesis by (simp add: contents_def stored_def length_clip)
  next
    case no: None
    with None show ?thesis by (simp add: contents_def stored_def MAX_LARGE_OBJECT_SIZE_def)
  qed
qed

lemma update_same: "desc_of sv i = Some d \<Longrightarrow> (cookies sv)[nat i := Some d] = cookies sv"
  by (auto simp add: desc_of_def list_update_same_conv split: if_splits)

lemma first_free_le: "first_free cs \<le> length cs"
  by (induction cs rule: first_free.induct) auto

lemma put_desc_nth: "put_desc cs d ! first_free cs = Some d"
  using first_free_le [of cs] by (auto simp add: put_desc_def Let_def nth_append)

lemma put_desc_length: "first_free cs < length (put_desc cs d)"
  using first_free_le [of cs] by (auto simp add: put_desc_def Let_def)

lemma lo_open_Inr:
  assumes "lo_open n mode sv = (Inr v, sv')"
  shows "\<exists>b. stored sv n = Some b \<and> v = int (first_free (cookies sv)) \<and>
     largeobjects sv' = largeobjects sv \<and>
     desc_of sv' v = Some \<lparr>lobj_id = n, lobj_offset = 0,
        lobj_snapshot = (if mode AND INV_WRITE \<noteq> 0 then None else Some b)\<rparr>"
  using assms put_desc_nth [of "cookies sv"] put_desc_length [of "cookies sv"]
  by (auto simp add: lo_open_def desc_of_def Let_def split: if_splits option.splits)

lemma openAsync_Inr:
  assumes "openAsync ident mode w = (Inr obj, w')"
  shows "\<exists>n b v. oid_param ident = Some n \<and> stored (server w) n = Some b \<and>
     obj = \<lparr>oid = ident, fd = JNum v\<rparr> \<and> v = int (first_free (cookies (server w))) \<and>
     largeobjects (server w') = largeobjects (server w) \<and>
     sent w' = sent w @ [Select_lo_open ident mode] \<and> console w' = console w \<and>
     desc_of (server w') v = Some \<lparr>lobj_id = n, lobj_offset = 0,
        lobj_snapshot = (if mode AND INV_WRITE \<noteq> 0 then None else Some b)\<rparr>"
proof -
  from assms have t: "truthy ident"
    by (auto simp add: openAsync_def split: if_splits)
  from assms t obtain n v sv' where n: "oid_param ident = Some n"
    and lo: "lo_open n mode (server w) = (Inr v, sv')"
    and w': "w' = w\<lparr>server := sv', sent := sent w @ [Select_lo_open ident mode]\<rparr>"
    and obj: "obj = \<lparr>oid = ident, fd = JNum v\<rparr>"
    by (auto simp add: openAsync_def sql_def scalar_column_def int4_reply_def
        split: option.splits prod.splits sum.splits)
  from lo_open_Inr [OF lo] n w' obj show ?thesis by auto
qed

section \<open>Reads and seeks keep the descriptor open and its position within the limits\<close>

lemma position_okE:
  assumes "position_ok obj sv"
  obtains i d where "int_param (fd obj) = Some i" and "desc_of sv i = Some d"
    and "descriptor_of obj sv = Some d" and "0 \<le> lobj_offset d"
    and "lobj_offset d \<le> MAX_LARGE_OBJECT_SIZE"
  using assms by (auto simp add: position_ok_def descriptor_of_def split: option.splits)

lemma loread_keeps:
  assumes "desc_of sv i = Some d" and "0 \<le> lobj_offset d"
    and "lobj_offset d \<le> MAX_LARGE_OBJECT_SIZE"
  shows "\<exists>d'. desc_of (snd (loread i len sv)) i = Some d' \<and> 0 \<le> lobj_offset d' \<and>
    lobj_offset d' \<le> MAX_LARGE_OBJECT_SIZE"
proof -
  let ?got = "take (nat len) (drop (nat (lobj_offset d)) (contents sv d))"
  have "int (length ?got) \<le> int (length (contents sv d)) - lobj_offset d \<or> length ?got = 0"
    using assms(2) by (simp add: min_def) linarith
  with length_contents [of sv d] assms(2,3)
  have "lobj_offset d + int (length ?got) \<le> MAX_LARGE_OBJECT_SIZE" by linarith
  with assms show ?thesis
    by (simp add: loread_def Let_def desc_of_update)
qed

lemma lo_lseek64_keeps:
  assumes "desc_of sv i = Some d" and "0 \<le> lobj_offset d"
    and "lobj_offset d \<le> MAX_LARGE_OBJECT_SIZE"
  shows "\<exists>d'. desc_of (snd (lo_lseek64 i off whence sv)) i = Some d' \<and> 0 \<le> lobj_offset d' \<and>
    lobj_offset d' \<le> MAX_LARGE_OBJECT_SIZE"
  using assms by (simp add: lo_lseek64_def Let_def desc_of_update)

lemma readAsync_server:
  "server (snd (readAsync obj len w)) =
     (case int_param (fd obj) of
        None \<Rightarrow> server w
      | Some i \<Rightarrow> snd (loread i len (server w)))"
  by (simp add: readAsync_def sql_def split: option.splits prod.splits sum.splits)

lemma seekAsync_server:
  "server (snd (seekAsync obj off whence w)) =
     (case int_param (fd obj) of
        None \<Rightarrow> server w
      | Some i \<Rightarrow> snd (lo_lseek64 i off whence (server w)))"
  by (simp add: seekAsync_def sql_def split: option.splits prod.splits sum.splits)

lemma do_op_keeps:
  assumes "position_ok obj (server w)"
  shows "position_ok obj (server (snd (do_op obj x w)))"
proof -
  from assms obtain i d where i: "int_param (fd obj) = Some i"
    and d: "desc_of (server w) i = Some d" "0 \<le> lobj_offset d"
      "lobj_offset d \<le> MAX_LARGE_OBJECT_SIZE"
    by (rule position_okE)
  show ?thesis
  proof (cases x)
    case (ReadOp len)
    have "server (snd (do_op obj x w)) = snd (loread i len (server w))"
      using readAsync_server [of obj len w] i ReadOp
      by (auto split: prod.splits sum.splits)
    with loread_keeps [OF d, of len] i show ?thesis
      by (auto simp add: position_ok_def descriptor_of_def)
  next
    case (SeekOp off whence)
    have "server (snd (do_op obj x w)) = snd (lo_lseek64 i off whence (server w))"
      using seekAsync_server [of obj off whence w] i SeekOp
      by (auto split: prod.splits sum.splits)
    with lo_lseek64_keeps [OF d, of off whence] i show ?thesis
      by (auto simp add: position_ok_def descriptor_of_def)
  qed
qed

lemma do_ops_keeps:
  "position_ok obj (server w) \<Longrightarrow> position_ok obj (server (snd (do_ops obj xs w)))"
proof (induction xs arbitrary: w)
  case Nil
  then show ?case by simp
next
  case (Cons x xs)
  from do_op_keeps [OF Cons.prems, of x]
  have ok: "position_ok obj (server (snd (do_op obj x w)))" .
  show ?case
  proof (cases "do_op obj x w")
    case (Pair r w')
    with ok have ok': "position_ok obj (server w')" by simp
    show ?thesis
    proof (cases r)
      case (Inl e)
      with Pair ok' show ?thesis by simp
    next
      case (Inr u)
      with Pair Cons.IH [OF ok'] show ?thesis by simp
    qed
  qed
qed

lemma open_position_ok:
  assumes "openAsync ident mode w = (Inr obj, w')"
  shows "position_ok obj (server w')"
  using openAsync_Inr [OF assms]
  by (auto simp add: position_ok_def descriptor_of_def MAX_LARGE_OBJECT_SIZE_def)

section \<open>What tell and size return\<close>

lemma size_statement:
  assumes "int_param f = Some i" and "desc_of sv i = Some d" and "0 \<le> lobj_offset d"
    and "lobj_offset d \<le> MAX_LARGE_OBJECT_SIZE"
  shows "exec (Select_size f) sv =
    (Inr \<lparr>scalars = [(''lo_lseek64'', JDecStr (lobj_offset d)),
                       (''size'', JDecStr (int (length (contents sv d))))], buffers = []\<rparr>, sv)"
proof -
  have tell: "lo_tell64 i sv = Inr (lobj_offset d)"
    using assms by (simp add: lo_tell64_def)
  define sv1 where
    "sv1 = sv\<lparr>cookies :=
       (cookies sv)[nat i := Some (d\<lparr>lobj_offset := int (length (contents sv d))\<rparr>)]\<rparr>"
  have toend: "lo_lseek64 i 0 2 sv = (Inr (int (length (contents sv d))), sv1)"
    using assms length_contents [of sv d] by (simp add: lo_lseek64_def sv1_def Let_def)
  have d1: "desc_of sv1 i = Some (d\<lparr>lobj_offset := int (length (contents sv d))\<rparr>)"
    unfolding sv1_def using assms(2) by (rule desc_of_update)
  have restore: "lo_lseek64 i (lobj_offset d) 0 sv1 = (Inr (lobj_offset d), sv)"
    using assms d1 by (simp add: lo_lseek64_def sv1_def update_same Let_def)
  show ?thesis
    by (simp add: assms(1) tell toend restore)
qed

lemma sizeAsync_result:
  assumes "descriptor_of obj (server w) = Some d" and "0 \<le> lobj_offset d"
    and "lobj_offset d \<le> MAX_LARGE_OBJECT_SIZE"
  shows "sizeAsync obj w =
    (Inr (JNum (nearest_double (int (length (contents (server w) d))))),
     w\<lparr>sent := sent w @ [Select_size (fd obj)]\<rparr>)"
proof -
  from assms(1) obtain i where i: "int_param (fd obj) = Some i"
    and d: "desc_of (server w) i = Some d"
    by (auto simp add: descriptor_of_def split: option.splits)
  show ?thesis
    by (simp add: sizeAsync_def sql_def size_statement [OF i d assms(2,3)] scalar_column_def
        del: exec.simps)
qed

lemma tellAsync_result:
  assumes "descriptor_of obj (server w) = Some d"
  shows "tellAsync obj w =
    (Inr (JNum (nearest_double (lobj_offset d))),
     w\<lparr>sent := sent w @ [Select_lo_tell64 (fd obj)]\<rparr>)"
proof -
  from assms(1) obtain i where i: "int_param (fd obj) = Some i"
    and d: "desc_of (server w) i = Some d"
    by (auto simp add: descriptor_of_def split: option.splits)
  show ?thesis
    by (simp add: tellAsync_def sql_def i d lo_tell64_def scalar_column_def)
qed

text \<open>
  The statement of \<open>seekAsync\<close> has no column \<open>location\<close>: whenever the call
  succeeds, what it returns is \<open>undefined\<close>.
\<close>

lemma seekAsync_returns_undefined:
  assumes "seekAsync obj off whence w = (Inr v, w')"
  shows "v = JUndefined"
  using assms
  by (auto simp add: seekAsync_def sql_def scalar_column_def
      split: option.splits prod.splits sum.splits)

section \<open>Mode and whence constants\<close>

text \<open>
  C9.  The exported mode constants are \<open>WRITE = 0x00020000\<close>, \<open>READ = 0x00040000\<close>
  and \<open>READWRITE = WRITE | READ\<close>, bit for bit the engine's \<open>INV_WRITE\<close> and
  \<open>INV_READ\<close>; the whence codes are \<open>SEEK_SET = 0\<close>, \<open>SEEK_CUR = 1\<close> and
  \<open>SEEK_END = 2\<close>.
\<close>

theorem mode_and_whence_constants:
  "WRITE = 0x00020000 \<and> READ = 0x00040000 \<and> READWRITE = WRITE OR READ \<and>
   WRITE = INV_WRITE \<and> READ = INV_READ \<and> READWRITE = INV_WRITE OR INV_READ \<and>
   SEEK_SET = 0 \<and> SEEK_CUR = 1 \<and> SEEK_END = 2"
  by (simp add: WRITE_def READ_def READWRITE_def INV_WRITE_def INV_READ_def
      SEEK_SET_def SEEK_CUR_def SEEK_END_def)

section \<open>Argument checks of the manager\<close>

text \<open>
  C3.  For a falsy identifier (0, NaN, null, undefined) \<open>openAsync\<close> and
  \<open>unlinkAsync\<close> fail at once with the Error \<open>Illegal Argument\<close> and leave the world
  as it was: no statement is sent.  For a truthy identifier each of them sends exactly
  one statement, its own.
\<close>

theorem falsy_oid_rejected_before_any_call:
  "(\<not> truthy ident \<longrightarrow>
      openAsync ident mode w = (Inl (ErrorObject ''Illegal Argument''), w) \<and>
      unlinkAsync ident w = (Inl (ErrorObject ''Illegal Argument''), w)) \<and>
   (truthy ident \<longrightarrow>
      sent (snd (openAsync ident mode w)) = sent w @ [Select_lo_open ident mode] \<and>
      sent (snd (unlinkAsync ident w)) = sent w @ [Select_lo_unlink ident])"
proof -
  have "sent (snd (openAsync ident mode w)) = sent w @ [Select_lo_open ident mode]"
    if "truthy ident"
    using that sent_sql [of "Select_lo_open ident mode" w]
    by (auto simp add: openAsync_def split: prod.splits sum.splits)
  moreover have "sent (snd (unlinkAsync ident w)) = sent w @ [Select_lo_unlink ident]"
    if "truthy ident"
    using that sent_sql [of "Select_lo_unlink ident" w]
    by (auto simp add: unlinkAsync_def split: prod.splits sum.splits)
  ultimately show ?thesis
    by (simp add: openAsync_def unlinkAsync_def)
qed

theorem falsy_oid_rejected_witness:
  "openAsync (JNum 0) READ test_world = (Inl (ErrorObject ''Illegal Argument''), test_world) \<and>
   unlinkAsync (JNum 0) test_world = (Inl (ErrorObject ''Illegal Argument''), test_world) \<and>
   sent (snd (openAsync (JNum 16385) READ test_world)) = [Select_lo_open (JNum 16385) READ] \<and>
   sent (snd (unlinkAsync (JNum 16385) test_world)) = [Select_lo_unlink (JNum 16385)]"
  using falsy_oid_rejected_before_any_call [of "JNum 0" READ test_world]
    falsy_oid_rejected_before_any_call [of "JNum 16385" READ test_world]
  by (simp add: test_world_def)

section \<open>Argument checks of the stream adapters\<close>

text \<open>
  C10.  \<open>ReadStream._read\<close> called with a length that is not positive, and
  \<open>WriteStream._write\<close> called with a chunk that is not a Buffer, throw the plain string
  \<open>Illegal Argument\<close> (a string, not an Error object) and leave everything as it was:
  no call is made on the large object.
\<close>

theorem adapters_throw_illegal_argument:
  "(len \<le> 0 \<longrightarrow> ReadStream_read len s = (Some (ThrownString ''Illegal Argument''), s)) \<and>
   WriteStream_write (NotBuffer v) t = (Some (ThrownString ''Illegal Argument''), t)"
  by (simp add: ReadStream_read_def WriteStream_write_def)

theorem adapters_throw_illegal_argument_witness:
  "ReadStream_read 0 \<lparr>world = test_world, pending = [], stream = plain_reader\<rparr> =
     (Some (ThrownString ''Illegal Argument''),
      \<lparr>world = test_world, pending = [], stream = plain_reader\<rparr>) \<and>
   WriteStream_write (NotBuffer (JNum 5))
       \<lparr>world = test_world, pending = [], stream = plain_writer\<rparr> =
     (Some (ThrownString ''Illegal Argument''),
      \<lparr>world = test_world, pending = [], stream = plain_writer\<rparr>)"
  using adapters_throw_illegal_argument [of 0
      "\<lparr>world = test_world, pending = [], stream = plain_reader\<rparr>"
      "JNum 5"
      "\<lparr>world = test_world, pending = [], stream = plain_writer\<rparr>"]
  by simp

section \<open>size() leaves the position where it was\<close>

text \<open>
  C2.  On a handle that was opened, after any sequence of reads and seeks that
  succeeded, \<open>sizeAsync\<close> returns the total length of the object (as the JavaScript
  number nearest to it, which is the length itself up to \<open>2^53\<close>), sends its one
  statement and changes nothing else; \<open>tellAsync\<close> called right after it returns what
  \<open>tellAsync\<close> called right before it returns, the position.
\<close>

theorem size_keeps_position:
  assumes "openAsync ident mode w0 = (Inr obj, w1)" and "do_ops obj ops w1 = (Inr (), w)"
  shows "\<exists>p n. position_of obj (server w) = Some p \<and> length_of obj (server w) = Some n \<and>
     sizeAsync obj w =
       (Inr (JNum (nearest_double (int n))), w\<lparr>sent := sent w @ [Select_size (fd obj)]\<rparr>) \<and>
     (n \<le> 2 ^ 53 \<longrightarrow> fst (sizeAsync obj w) = Inr (JNum (int n))) \<and>
     fst (tellAsync obj w) = Inr (JNum (nearest_double p)) \<and>
     fst (tellAsync obj (snd (sizeAsync obj w))) = fst (tellAsync obj w)"
proof -
  have "position_ok obj (server w1)"
    using assms(1) by (rule open_position_ok)
  then have "position_ok obj (server (snd (do_ops obj ops w1)))"
    by (rule do_ops_keeps)
  with assms(2) have "position_ok obj (server w)" by simp
  then obtain d where d: "descriptor_of obj (server w) = Some d" "0 \<le> lobj_offset d"
      "lobj_offset d \<le> MAX_LARGE_OBJECT_SIZE"
    by (rule position_okE)
  let ?n = "length (contents (server w) d)"
  note sz = sizeAsync_result [OF d]
  have after: "descriptor_of obj (server (w\<lparr>sent := sent w @ [Select_size (fd obj)]\<rparr>)) = Some d"
    using d(1) by simp
  have "position_of obj (server w) = Some (lobj_offset d)"
    using d(1) by (simp add: position_of_def)
  moreover have "length_of obj (server w) = Some ?n"
    using d(1) by (simp add: length_of_def)
  moreover have "?n \<le> 2 ^ 53 \<longrightarrow> fst (sizeAsync obj w) = Inr (JNum (int ?n))"
    by (simp add: sz nearest_double_exact)
  moreover have "fst (tellAsync obj w) = Inr (JNum (nearest_double (lobj_offset d)))"
    by (simp add: tellAsync_result [OF d(1)])
  moreover have "fst (tellAsync obj (snd (sizeAsync obj w))) = fst (tellAsync obj w)"
    by (simp add: sz tellAsync_result [OF d(1)] tellAsync_result [OF after])
  ultimately show ?thesis
    using sz by blast
qed

text \<open>The test \<open>tell after size\<close>: open, read 2 bytes, size, tell.\<close>

theorem size_keeps_position_witness:
  "fst (sizeAsync test_handle after_read2) = Inr (JNum 8) \<and>
   fst (tellAsync test_handle after_read2) = Inr (JNum 2) \<and>
   fst (tellAsync test_handle (snd (sizeAsync test_handle after_read2))) = Inr (JNum 2)"
proof -
  have h1: "openAsync (JNum 16385) READ test_world = (Inr test_handle, opened_world)"
    by (simp add: eval_defs)
  have h2: "do_ops test_handle [ReadOp 2] opened_world = (Inr (), after_read2)"
    by (simp add: eval_defs after_read2_def)
  have p: "position_of test_handle (server after_read2) = Some 2"
    by (simp add: eval_defs after_read2_def)
  have n: "length_of test_handle (server after_read2) = Some 8"
    by (simp add: eval_defs after_read2_def)
  from size_keeps_position [OF h1 h2] p n show ?thesis
    by (auto simp add: nearest_double_exact)
qed

section \<open>Positions and sizes are JavaScript numbers\<close>

text \<open>
  \<open>tellAsync\<close> and \<open>sizeAsync\<close> convert the engine's 64-bit result to a JavaScript
  number.  On a descriptor that is open at a position the engine allows, both are exact:
  no position and no length exceeds \<open>MAX_LARGE_OBJECT_SIZE\<close>, which is below \<open>2^53\<close>.
\<close>

lemma tell_and_size_exact:
  assumes "position_ok obj (server w)"
  shows "\<exists>p n. position_of obj (server w) = Some p \<and> length_of obj (server w) = Some n \<and>
     fst (tellAsync obj w) = Inr (JNum p) \<and> fst (sizeAsync obj w) = Inr (JNum (int n))"
proof -
  from assms obtain d where d: "descriptor_of obj (server w) = Some d" "0 \<le> lobj_offset d"
      "lobj_offset d \<le> MAX_LARGE_OBJECT_SIZE"
    by (rule position_okE)
  have "\<bar>lobj_offset d\<bar> \<le> 2 ^ 53"
    using d(2,3) by (simp add: MAX_LARGE_OBJECT_SIZE_def)
  then have p: "nearest_double (lobj_offset d) = lobj_offset d"
    by (rule nearest_double_exact)
  have "\<bar>int (length (contents (server w) d))\<bar> \<le> 2 ^ 53"
    using length_contents [of "server w" d] by (simp add: MAX_LARGE_OBJECT_SIZE_def)
  then have n: "nearest_double (int (length (contents (server w) d))) =
      int (length (contents (server w) d))"
    by (rule nearest_double_exact)
  show ?thesis
    using d(1) tellAsync_result [OF d(1)] sizeAsync_result [OF d] p n
    by (simp add: position_of_def length_of_def)
qed

text \<open>
  C8.  Of the three calls that should return a position or a size, \<open>seekAsync\<close>
  returns none: its statement \<open>SELECT lo_lseek64(...)\<close> names no column
  \<open>location\<close>, so the destructured \<open>location\<close> is \<open>undefined\<close>.  On the object of the
  tests, opened and sought to position 3 from the start: the call resolves with
  \<open>undefined\<close>, while the engine's position is 3 and \<open>tellAsync\<close> returns 3.
\<close>

theorem seekAsync_resolves_undefined:
  "openAsync (JNum 16385) READ test_world = (Inr test_handle, opened_world) \<and>
   seekAsync test_handle 3 SEEK_SET opened_world = (Inr JUndefined, sought_world) \<and>
   position_of test_handle (server sought_world) = Some 3 \<and>
   fst (tellAsync test_handle sought_world) = Inr (JNum 3)"
  by (simp add: eval_defs sought_world_def nearest_double_def bitlen.simps)

section \<open>Reading through the stream\<close>

lemmas stream_eval_defs =
  getWritableStream_def new_WriteStream_def getReadableStream_def new_ReadStream_def
  writable_run_def writable_write_def writable_end_def writable_tick_def writable_settle_def
  writable_onwrite_def writable_dispatch_def writable_finish_def WriteStream_write_def
  issue_def close_settled_def
  readable_run_def readable_pull_def readable_settle_def readable_push_def
  readable_push_null_def readable_emit_error_def ReadStream_read_def ReadStream_read_callback_def
  createAndWritableStreamAsync_def openAndReadableStreamAsync_def
  write_handle_def created_world_def plain_reader_def test_reader_def huge_reader_def
  plain_writer_def test_writer_def sized_world_def



lemma stream_run_listeners: "stream (fold run_listener ls s) = stream s"
proof (induction ls arbitrary: s)
  case Nil
  then show ?case by simp
next
  case (Cons l ls)
  then show ?case by (cases l) (simp add: issue_def)
qed

lemma world_run_listeners: "world (fold run_listener ls s) = world s"
proof (induction ls arbitrary: s)
  case Nil
  then show ?case by simp
next
  case (Cons l ls)
  then show ?case by (cases l) (simp add: issue_def)
qed

lemma readAsync_sent: "sent (snd (readAsync obj len w)) = sent w @ [Select_loread (fd obj) len]"
  using sent_sql [of "Select_loread (fd obj) len" w]
  by (auto simp add: readAsync_def split: prod.splits sum.splits)




section \<open>A read that fails\<close>

text \<open>
  C7.  When the read issued by a pull is rejected, the stream emits that error, once,
  delivers nothing and does not end; no call is left in flight and, whatever the host
  and the engine do afterwards, nothing changes any more: no further read is sent, no
  data and no second error reach the consumer.
\<close>

theorem failed_read_stops_stream:
  assumes "pending s = []" and "\<not> reading (stream s)" and "\<not> ended (stream s)"
    and "0 < r_highWaterMark (stream s)"
    and "fst (readAsync (r_largeObject (stream s)) (r_highWaterMark (stream s)) (world s)) = Inl e"
  shows "r_errors (stream (readable_settle (readable_pull s))) = r_errors (stream s) @ [e] \<and>
     delivered (stream (readable_settle (readable_pull s))) = delivered (stream s) \<and>
     \<not> ended (stream (readable_settle (readable_pull s))) \<and>
     pending (readable_settle (readable_pull s)) = [] \<and>
     sent (world (readable_settle (readable_pull s))) =
       sent (world s) @ [Select_loread (fd (r_largeObject (stream s))) (r_highWaterMark (stream s))] \<and>
     readable_run evs (readable_settle (readable_pull s)) = readable_settle (readable_pull s)"
proof -
  let ?obj = "r_largeObject (stream s)" and ?hwm = "r_highWaterMark (stream s)"
  have pull: "readable_pull s =
      s\<lparr>stream := (stream s)\<lparr>reading := True\<rparr>, pending := [ReadCall ?obj ?hwm]\<rparr>"
    using assms(1-4) by (simp add: readable_pull_def ReadStream_read_def issue_def Let_def)
  obtain w' where rd: "readAsync ?obj ?hwm (world s) = (Inl e, w')"
    using assms(5) by (cases "readAsync ?obj ?hwm (world s)") simp
  have w': "sent w' = sent (world s) @ [Select_loread (fd ?obj) ?hwm]"
    using readAsync_sent [of ?obj ?hwm "world s"] rd by simp
  define s1 where "s1 = readable_settle (readable_pull s)"
  have s1: "s1 = s\<lparr>stream := (stream s)\<lparr>reading := True, r_errors := r_errors (stream s) @ [e]\<rparr>,
      pending := [], world := w'\<rparr>"
    by (simp add: s1_def pull readable_settle_def rd ReadStream_read_callback_def
        readable_emit_error_def Let_def)
  have step: "readable_step ev s1 = s1" for ev
    by (cases ev) (simp_all add: s1 readable_pull_def readable_settle_def Let_def)
  have "readable_run evs s1 = s1"
    unfolding readable_run_def by (induction evs) (simp_all add: step)
  then show ?thesis
    using w' assms(3) unfolding s1_def [symmetric] by (simp add: s1)
qed

text \<open>A stream on a descriptor that is not open: the engine rejects the read.\<close>

theorem failed_read_stops_stream_witness:
  "r_errors (stream (readable_settle (readable_pull
      \<lparr>world = test_world, pending = [], stream = plain_reader\<rparr>))) =
     [RemoteError InvalidDescriptor] \<and>
   delivered (stream (readable_run [Pull, Settle, Pull] (readable_settle (readable_pull
      \<lparr>world = test_world, pending = [], stream = plain_reader\<rparr>)))) = [] \<and>
   sent (world (readable_run [Pull, Settle, Pull] (readable_settle (readable_pull
      \<lparr>world = test_world, pending = [], stream = plain_reader\<rparr>)))) =
     [Select_loread (JNum 0) 16384]"
proof -
  let ?s = "\<lparr>world = test_world, pending = [], stream = plain_reader\<rparr>"
  have "pending ?s = []" and "\<not> reading (stream ?s)" and "\<not> ended (stream ?s)"
    and "0 < r_highWaterMark (stream ?s)"
    and "fst (readAsync (r_largeObject (stream ?s)) (r_highWaterMark (stream ?s)) (world ?s)) =
      Inl (RemoteError InvalidDescriptor)"
    by (simp_all add: eval_defs plain_reader_def)
  from failed_read_stops_stream [OF this, of "[Pull, Settle, Pull]"] show ?thesis
    by (simp add: plain_reader_def test_handle_def test_world_def)
qed

section \<open>Writing through the stream\<close>

lemma writes_sent_append: "writes_sent (qs @ rs) = writes_sent qs @ writes_sent rs"
  by (induction qs rule: writes_sent.induct) simp_all

lemma writes_in_flight_append:
  "writes_in_flight (cs @ ds) = writes_in_flight cs @ writes_in_flight ds"
  by (induction cs rule: writes_in_flight.induct) simp_all

lemma writes_in_flight_listeners:
  "writes_in_flight (pending (fold run_listener ls s)) = writes_in_flight (pending s)"
proof (induction ls arbitrary: s)
  case Nil
  then show ?case by simp
next
  case (Cons l ls)
  then show ?case by (cases l) (simp add: issue_def writes_in_flight_append)
qed

lemma write_inv_listeners:
  "write_inv base obj (fold run_listener ls s) = write_inv base obj s"
  by (simp add: write_inv_def writes_in_flight_listeners stream_run_listeners world_run_listeners)

lemma write_inv_finish: "write_inv base obj s \<Longrightarrow> write_inv base obj (writable_finish s)"
  by (simp add: writable_finish_def write_inv_listeners) (auto simp add: write_inv_def)

lemma dispatch_eq:
  "writable_dispatch b s = s\<lparr>stream := (stream s)\<lparr>writing := True\<rparr>,
      pending := pending s @ [WriteCall (w_largeObject (stream s)) b]\<rparr>"
  by (simp add: writable_dispatch_def WriteStream_write_def issue_def)

lemma write_inv_write: "write_inv base obj s \<Longrightarrow> write_inv base obj (writable_write b s)"
  by (auto simp add: writable_write_def dispatch_eq write_inv_def Let_def writes_in_flight_append)

lemma write_inv_end: "write_inv base obj s \<Longrightarrow> write_inv base obj (writable_end s)"
  by (auto simp add: writable_end_def Let_def write_inv_def)

lemma write_inv_tick: "write_inv base obj s \<Longrightarrow> write_inv base obj (writable_tick s)"
proof -
  assume inv: "write_inv base obj s"
  then have "write_inv base obj (s\<lparr>stream := (stream s)\<lparr>finish_due := False\<rparr>\<rparr>)"
    by (auto simp add: write_inv_def)
  then show ?thesis
    by (auto simp add: writable_tick_def Let_def intro: write_inv_finish)
qed

lemma writeAsync_sent: "sent (snd (writeAsync obj b w)) = sent w @ [Select_lowrite (fd obj) b]"
  using sent_sql [of "Select_lowrite (fd obj) b" w]
  by (auto simp add: writeAsync_def split: prod.splits sum.splits)

lemma closeAsync_sent: "sent (snd (closeAsync obj w)) = sent w @ [Select_lo_close (fd obj)]"
  using sent_sql [of "Select_lo_close (fd obj)" w]
  by (auto simp add: closeAsync_def split: prod.splits sum.splits)

lemma close_settled_eq:
  "close_settled (closeAsync obj w) s =
     s\<lparr>world := (snd (closeAsync obj w))\<lparr>console := console w @
        (case fst (closeAsync obj w) of Inl e \<Rightarrow> [e] | Inr u \<Rightarrow> [])\<rparr>\<rparr>"
  using console_sql [of "Select_lo_close (fd obj)" w]
  by (auto simp add: close_settled_def closeAsync_def split: prod.splits sum.splits)

lemma write_inv_onwrite:
  assumes "w_largeObject (stream s) = obj" and "writes_in_flight (pending s) = []"
    and "writes_sent (sent (world s)) @ map (Pair (fd obj)) (buffered (stream s)) =
      base @ map (Pair (fd obj)) (accepted (stream s))"
  shows "write_inv base obj (writable_onwrite res s)"
proof -
  have idle: "write_inv base obj (s\<lparr>stream := (stream s)\<lparr>writing := False\<rparr>\<rparr>)"
    if "buffered (stream s) = [] \<or> w_errors (stream s) \<noteq> []"
    using assms that by (auto simp add: write_inv_def)
  show ?thesis
  proof (cases res)
    case (Inl e)
    with assms show ?thesis
      by (auto simp add: writable_onwrite_def write_inv_def Let_def)
  next
    case (Inr u)
    show ?thesis
    proof (cases "w_errors (stream s) = []")
      case False
      with Inr idle show ?thesis by (simp add: writable_onwrite_def Let_def)
    next
      case True
      show ?thesis
      proof (cases "buffered (stream s)")
        case Nil
        with Inr True idle show ?thesis
          by (auto simp add: writable_onwrite_def Let_def intro: write_inv_finish)
      next
        case (Cons b rest)
        with Inr True assms show ?thesis
          by (auto simp add: writable_onwrite_def Let_def dispatch_eq write_inv_def
              writes_in_flight_append)
      qed
    qed
  qed
qed

lemma write_inv_settle: "write_inv base obj s \<Longrightarrow> write_inv base obj (writable_settle s)"
proof -
  assume inv: "write_inv base obj s"
  show ?thesis
  proof (cases "pending s")
    case Nil
    with inv show ?thesis by (simp add: writable_settle_def)
  next
    case (Cons c rest)
    show ?thesis
    proof (cases c)
      case (ReadCall o1 len)
      with Cons inv readAsync_sent [of o1 len "world s"] show ?thesis
        by (auto simp add: writable_settle_def Let_def write_inv_def writes_sent_append
            split: prod.splits)
    next
      case (CloseCall o1)
      with Cons inv closeAsync_sent [of o1 "world s"] show ?thesis
        by (auto simp add: writable_settle_def Let_def write_inv_def writes_sent_append
            close_settled_eq)
    next
      case (WriteCall o1 b)
      obtain res w' where wr: "writeAsync o1 b (world s) = (res, w')"
        by (cases "writeAsync o1 b (world s)")
      with writeAsync_sent [of o1 b "world s"]
      have w': "sent w' = sent (world s) @ [Select_lowrite (fd o1) b]" by simp
      from inv Cons WriteCall have rest: "writes_in_flight rest = []"
        by (simp add: write_inv_def)
      have "write_inv base obj (writable_onwrite res (s\<lparr>pending := rest, world := w'\<rparr>))"
        using inv Cons WriteCall rest w'
        by (intro write_inv_onwrite) (auto simp add: write_inv_def writes_sent_append)
      with Cons WriteCall wr show ?thesis
        by (simp add: writable_settle_def Let_def)
    qed
  qed
qed

lemma write_inv_run: "write_inv base obj s \<Longrightarrow> write_inv base obj (writable_run evs s)"
  unfolding writable_run_def
proof (induction evs arbitrary: s)
  case Nil
  then show ?case by simp
next
  case (Cons ev evs)
  have "write_inv base obj (writable_step ev s)"
    using Cons.prems
    by (cases ev) (simp_all add: write_inv_write write_inv_end write_inv_tick write_inv_settle)
  then show ?case
    using Cons.IH by simp
qed



text \<open>
  C6.  Whatever the producer, the host and the engine do with a \<open>WriteStream\<close> that
  \<open>getWritableStream\<close> has built (chunks written, the end of input, ticks of the host,
  calls settling, in any order): at most one write is in flight; the host counts the
  adapter as busy exactly while its write is in flight, so the callback that makes it
  ready for the next chunk has run only after the write settled; and the writes sent,
  then the one in flight, then the chunks still buffered are, in this order and one for
  one, the chunks the stream accepted, each on the stream's own handle.  Once nothing is
  in flight on a stream that has not failed, every accepted chunk has been sent as
  exactly one write, in the order of acceptance.
\<close>

theorem writes_in_order_one_at_a_time:
  assumes "getWritableStream obj bufferSize = Inr st"
    and "s = writable_run evs \<lparr>world = w, pending = [], stream = st\<lparr>finish_listeners := ls\<rparr>\<rparr>"
  shows "length (writes_in_flight (pending s)) \<le> 1 \<and>
     writing (stream s) = (writes_in_flight (pending s) \<noteq> []) \<and>
     writes_sent (sent (world s)) @ writes_in_flight (pending s) @
         map (Pair (fd obj)) (buffered (stream s)) =
       writes_sent (sent w) @ map (Pair (fd obj)) (accepted (stream s)) \<and>
     (writes_in_flight (pending s) = [] \<and> w_errors (stream s) = [] \<longrightarrow>
        writes_sent (sent (world s)) =
          writes_sent (sent w) @ map (Pair (fd obj)) (accepted (stream s)))"
proof -
  have "write_inv (writes_sent (sent w)) obj
     \<lparr>world = w, pending = [], stream = st\<lparr>finish_listeners := ls\<rparr>\<rparr>"
    using assms(1)
    by (auto simp add: write_inv_def getWritableStream_def new_WriteStream_def Let_def
        split: if_splits)
  then have "write_inv (writes_sent (sent w)) obj s"
    unfolding assms(2) by (rule write_inv_run)
  then show ?thesis
    by (auto simp add: write_inv_def)
qed

text \<open>
  Two chunks written back to back to a stream on the new object 16386: the second waits
  in the buffer while the first is in flight; after both have settled the object holds
  the bytes in the order written.
\<close>

theorem writes_in_order_witness:
  "getWritableStream write_handle None = Inr plain_writer \<and>
   writes_in_flight (pending (writable_run [Write [1, 2], Write [3]]
      \<lparr>world = created_world, pending = [], stream = plain_writer\<rparr>)) =
     [(JNum 0, [1, 2])] \<and>
   buffered (stream (writable_run [Write [1, 2], Write [3]]
      \<lparr>world = created_world, pending = [], stream = plain_writer\<rparr>)) =
     [[3]] \<and>
   writes_sent (sent (world (writable_run [Write [1, 2], Write [3], Settled, Tick, Settled]
      \<lparr>world = created_world, pending = [], stream = plain_writer\<rparr>))) =
     [(JNum 0, [1, 2]), (JNum 0, [3])] \<and>
   largeobjects (server (world (writable_run [Write [1, 2], Write [3], Settled, Tick, Settled]
      \<lparr>world = created_world, pending = [], stream = plain_writer\<rparr>))) =
     [(16385, testBuf), (16386, [1, 2, 3])]"
proof -
  let ?s0 = "\<lparr>world = created_world, pending = [],
     stream = plain_writer\<lparr>finish_listeners := []\<rparr>\<rparr>"
  have s0: "?s0 = \<lparr>world = created_world, pending = [], stream = plain_writer\<rparr>"
    by (simp add: plain_writer_def)
  have st: "getWritableStream write_handle None = Inr plain_writer"
    by (simp add: getWritableStream_def new_WriteStream_def plain_writer_def)
  have a: "accepted (stream (writable_run [Write [1, 2], Write [3]] ?s0)) = [[1, 2], [3]]"
    and b: "buffered (stream (writable_run [Write [1, 2], Write [3]] ?s0)) = [[3]]"
    and c: "writes_sent (sent (world (writable_run [Write [1, 2], Write [3]] ?s0))) = []"
    by (simp_all add: stream_eval_defs eval_defs)
  have d: "accepted (stream (writable_run [Write [1, 2], Write [3], Settled, Tick, Settled] ?s0)) =
      [[1, 2], [3]]"
    and e: "pending (writable_run [Write [1, 2], Write [3], Settled, Tick, Settled] ?s0) = []"
    and f: "w_errors (stream (writable_run [Write [1, 2], Write [3], Settled, Tick, Settled] ?s0)) = []"
    and g: "largeobjects (server (world
        (writable_run [Write [1, 2], Write [3], Settled, Tick, Settled] ?s0))) =
      [(16385, testBuf), (16386, [1, 2, 3])]"
    by (simp_all add: stream_eval_defs eval_defs)
  have h: "writes_sent (sent created_world) = []"
    by (simp add: stream_eval_defs eval_defs)
  from writes_in_order_one_at_a_time [where evs = "[Write [1, 2], Write [3]]"
      and w = created_world and obj = write_handle and bufferSize = None and ls = "[]",
      OF st refl]
    writes_in_order_one_at_a_time [where evs = "[Write [1, 2], Write [3], Settled, Tick, Settled]"
      and w = created_world and obj = write_handle and bufferSize = None and ls = "[]",
      OF st refl]
    a b c d e f g h st
  show ?thesis
    unfolding s0 by (simp add: write_handle_def)
qed

section \<open>The composite operations of the manager\<close>






















end
